theory Spec2Isabelle
  imports Main
begin

section \<open>Data model (package models)\<close>

text \<open>
  Values of Go's \<^verbatim>\<open>interface{}\<close> as they occur in attribute maps. The service
  only copies these maps, so three kinds of value are enough.
\<close>

datatype any = AnyString string | AnyInt int | AnyBool bool

text \<open>
  \<^verbatim>\<open>map[string]interface{}\<close> is kept as an association list; the service never
  looks a key up in it.
\<close>

type_synonym attributes = "(string \<times> any) list"

text \<open>
  Modelled from the spec: \<^verbatim>\<open>models.ApplicationData\<close> is not among the
  source files; the spec calls it a per-application record, so it is a list of
  key/value pairs here.
\<close>

type_synonym application_data = "(string \<times> any) list"

text \<open>
  Modelled from the spec: the structs of package models are not among the source
  files. Their fields are those of the spec's data model, under the names the
  service uses for them.
\<close>

record child_profile =
  ChildProfileId :: string

record profile_hierarchy =
  IsParent :: bool
  ParentProfileID :: string
  ListProfile :: bool
  ChildProfiles :: "child_profile list"

text \<open>
  \<^verbatim>\<open>Profile.ProfileHierarchy\<close> is a pointer (\<^verbatim>\<open>&models.ProfileHierarchy{...}\<close> in
  \<^verbatim>\<open>CreateOrUpdateProfile\<close>), so it is an option: \<open>None\<close> is nil. Nil and empty
  slices are both the empty list.
\<close>

record profile =
  ProfileId :: string
  ProfileHierarchy :: "profile_hierarchy option"
  IdentityAttributes :: attributes
  Traits :: attributes
  ApplicationData :: "application_data list"

text \<open>
  The field \<^verbatim>\<open>ProfileId\<close> of \<^verbatim>\<open>models.Event\<close>; a record cannot share a field name
  with \<open>profile\<close>.
\<close>

record event =
  EventProfileId :: string

record profile_enrichment_rule =
  PropertyName :: string
  ValueType :: string

section \<open>Errors (package errors) and outcomes\<close>

text \<open>Every call the service makes on a collaborator (repositories, lock, session).\<close>

datatype repo_call =
    ConnCall
  | ConnCloseCall
  | AcquireCall string
  | ReleaseCall string
  | InsertProfileCall string
  | GetProfileCall string
  | FetchApplicationDataCall string
  | FetchChildProfilesCall string
  | DeleteProfileCall string
  | DetachChildProfileFromParentCall string string
  | GetAllProfilesCall
  | GetAllProfilesWithFilterCall "string list"
  | DeleteEventsByProfileIdCall string
  | GetProfileEnrichmentRulesCall

text \<open>An error value handed back by a collaborator; it names the call that failed.\<close>

datatype db_error = DbError repo_call

datatype error_message =
    ErrProfileNotFound
  | ErrWhileFetchingProfile
  | ErrWhileDeletingProfile
  | ErrWhileFetchingProfileEnrichmentRules

text \<open>
  \<open>ClientError\<close> and \<open>ServerError\<close> are the two error classes of package errors
  (the second argument of \<open>ServerError\<close> is the wrapped cause, which the code may
  pass as nil). The other constructors are the \<^verbatim>\<open>fmt.Errorf\<close> sites of
  \<^verbatim>\<open>CreateOrUpdateProfile\<close> and \<^verbatim>\<open>waitForProfile\<close>, one each, with their arguments.
\<close>

datatype error =
    ClientError error_message nat
  | ServerError error_message "db_error option"
  | FailedToGetDBConnection db_error
  | LockAcquisitionError string db_error
  | CouldNotAcquireLock string int
  | FailedToInsertOrUpdate string db_error
  | NotVisibleAfterRetries string int "db_error option"
  | NotVisibleAfterInsert string "error option"

definition StatusNotFound :: nat where
  "StatusNotFound = 404"

text \<open>A call either returns or panics (nil pointer dereference).\<close>

datatype 'a outcome = Panic | Return 'a

section \<open>The storage collaborator\<close>

text \<open>
  Modelled from the spec: packages repositories and database are not among the
  source files. The store holds the tables the spec's storage interface speaks of, the
  list of calls issued so far (oldest first), and two oracles: \<open>faults\<close> lists the
  positions in \<open>calls\<close> at which the collaborator reports a failure, \<open>busy\<close> the
  positions at which a named lock is held by another session. A failing call
  changes no table.
\<close>

record store =
  profiles :: "profile list"
  application_data :: "(string \<times> application_data list) list"
  child_profiles :: "(string \<times> child_profile list) list"
  events :: "event list"
  enrichment_rules :: "profile_enrichment_rule list"
  calls :: "repo_call list"
  faults :: "nat list"
  busy :: "nat list"

definition failing :: "store \<Rightarrow> bool" where
  "failing s = (length (calls s) \<in> set (faults s))"

definition contended :: "store \<Rightarrow> bool" where
  "contended s = (length (calls s) \<in> set (busy s))"

definition issue :: "repo_call \<Rightarrow> store \<Rightarrow> store" where
  "issue c s = s\<lparr>calls := calls s @ [c]\<rparr>"

definition has_id :: "string \<Rightarrow> profile \<Rightarrow> bool" where
  "has_id pid p = (ProfileId p = pid)"

definition lookup_list :: "(string \<times> 'a list) list \<Rightarrow> string \<Rightarrow> 'a list" where
  "lookup_list t k = (case map_of t k of None \<Rightarrow> [] | Some xs \<Rightarrow> xs)"

text \<open>Modelled from the spec: \<^verbatim>\<open>getProfile(profileId) -> Profile?, error\<close>.\<close>

definition repo_GetProfile ::
  "store \<Rightarrow> string \<Rightarrow> (profile option \<times> db_error option) \<times> store" where
  "repo_GetProfile s pid =
     (if failing s then ((None, Some (DbError (GetProfileCall pid))), issue (GetProfileCall pid) s)
      else ((find (has_id pid) (profiles s), None), issue (GetProfileCall pid) s))"

text \<open>Modelled from the spec: \<^verbatim>\<open>fetchApplicationData(profileId) -> sequence, error\<close>.\<close>

definition repo_FetchApplicationData ::
  "store \<Rightarrow> string \<Rightarrow> (application_data list \<times> db_error option) \<times> store" where
  "repo_FetchApplicationData s pid =
     (if failing s
      then (([], Some (DbError (FetchApplicationDataCall pid))), issue (FetchApplicationDataCall pid) s)
      else ((lookup_list (application_data s) pid, None), issue (FetchApplicationDataCall pid) s))"

text \<open>Modelled from the spec: \<^verbatim>\<open>fetchChildProfiles(parentId) -> sequence of ChildRef, error\<close>.\<close>

definition repo_FetchChildProfiles ::
  "store \<Rightarrow> string \<Rightarrow> (child_profile list \<times> db_error option) \<times> store" where
  "repo_FetchChildProfiles s pid =
     (if failing s
      then (([], Some (DbError (FetchChildProfilesCall pid))), issue (FetchChildProfilesCall pid) s)
      else ((lookup_list (child_profiles s) pid, None), issue (FetchChildProfilesCall pid) s))"

text \<open>Modelled from the spec: \<^verbatim>\<open>deleteProfile(profileId) -> error\<close> (idempotent).\<close>

definition repo_DeleteProfile :: "store \<Rightarrow> string \<Rightarrow> db_error option \<times> store" where
  "repo_DeleteProfile s pid =
     (if failing s then (Some (DbError (DeleteProfileCall pid)), issue (DeleteProfileCall pid) s)
      else (None, issue (DeleteProfileCall pid)
                    (s\<lparr>profiles := filter (\<lambda>p. \<not> has_id pid p) (profiles s)\<rparr>)))"

text \<open>Modelled from the spec: \<^verbatim>\<open>detachChildProfileFromParent(parentId, childId) -> error\<close>.\<close>

definition detach :: "string \<Rightarrow> string \<Rightarrow> string \<times> child_profile list \<Rightarrow> string \<times> child_profile list" where
  "detach parent child row =
     (if fst row = parent
      then (fst row, filter (\<lambda>c. ChildProfileId c \<noteq> child) (snd row))
      else row)"

definition repo_DetachChildProfileFromParent ::
  "store \<Rightarrow> string \<Rightarrow> string \<Rightarrow> db_error option \<times> store" where
  "repo_DetachChildProfileFromParent s parent child =
     (if failing s
      then (Some (DbError (DetachChildProfileFromParentCall parent child)),
            issue (DetachChildProfileFromParentCall parent child) s)
      else (None, issue (DetachChildProfileFromParentCall parent child)
                    (s\<lparr>child_profiles := map (detach parent child) (child_profiles s)\<rparr>)))"

text \<open>
  Modelled from the spec: the event store removes all events referencing a profile
  identifier.
\<close>

definition repo_DeleteEventsByProfileId :: "store \<Rightarrow> string \<Rightarrow> db_error option \<times> store" where
  "repo_DeleteEventsByProfileId s pid =
     (if failing s
      then (Some (DbError (DeleteEventsByProfileIdCall pid)), issue (DeleteEventsByProfileIdCall pid) s)
      else (None, issue (DeleteEventsByProfileIdCall pid)
                    (s\<lparr>events := filter (\<lambda>e. EventProfileId e \<noteq> pid) (events s)\<rparr>)))"

section \<open>GetProfile\<close>

text \<open>
  Lines 78-116. The error of the first fetch is discarded. In the child branch the
  fetched master is used before the checks of lines 107 and 110: reading
  \<^verbatim>\<open>masterProfile.ProfileId\<close> for the argument of line 100 panics on a nil master,
  and the assignment of line 103 panics, after its call, on a nil hierarchy.
\<close>

definition GetProfile ::
  "store \<Rightarrow> string \<Rightarrow> (profile option \<times> error option) outcome \<times> store" where
  "GetProfile s pid =
     (case repo_GetProfile s pid of ((profile, _), s1) \<Rightarrow>
      (case profile of
         None \<Rightarrow> (Return (None, Some (ClientError ErrProfileNotFound StatusNotFound)), s1)
       | Some p \<Rightarrow>
          (case ProfileHierarchy p of
             None \<Rightarrow> (Panic, s1)
           | Some h \<Rightarrow>
              if IsParent h then (Return (Some p, None), s1)
              else
                (case repo_GetProfile s1 (ParentProfileID h) of ((masterProfile, err), s2) \<Rightarrow>
                 (case masterProfile of
                    None \<Rightarrow> (Panic, s2)
                  | Some m \<Rightarrow>
                     (case repo_FetchApplicationData s2 (ProfileId m) of ((appData, _), s3) \<Rightarrow>
                      (case repo_FetchChildProfiles s3 (ProfileId m) of ((children, _), s4) \<Rightarrow>
                       (case ProfileHierarchy m of
                          None \<Rightarrow> (Panic, s4)
                        | Some mh \<Rightarrow>
                           (let master =
                                  m\<lparr>ApplicationData := appData,
                                    ProfileHierarchy :=
                                      Some (mh\<lparr>ChildProfiles := children,
                                                ParentProfileID := ProfileId m\<rparr>),
                                    ProfileId := ProfileId p\<rparr>
                            in case err of
                                 Some e \<Rightarrow>
                                   (Return (None, Some (ServerError ErrWhileFetchingProfile (Some e))), s4)
                               | None \<Rightarrow> (Return (Some master, None), s4))))))))))"

section \<open>DeleteProfile\<close>

text \<open>The loop of lines 157-171; \<open>Some e\<close> is the early return of the enclosing function.\<close>

fun delete_children :: "store \<Rightarrow> child_profile list \<Rightarrow> error option \<times> store" where
  "delete_children s [] = (None, s)"
| "delete_children s (childProfile # rest) =
     (case repo_GetProfile s (ChildProfileId childProfile) of ((profile, err), s1) \<Rightarrow>
      (case profile of
         None \<Rightarrow> (Some (ServerError ErrWhileDeletingProfile err), s1)
       | Some _ \<Rightarrow>
          (case err of
             Some e \<Rightarrow> (Some (ServerError ErrWhileDeletingProfile (Some e)), s1)
           | None \<Rightarrow>
              (case repo_DeleteProfile s1 (ChildProfileId childProfile) of (err2, s2) \<Rightarrow>
               (case err2 of
                  Some e \<Rightarrow> (Some (ServerError ErrWhileDeletingProfile (Some e)), s2)
                | None \<Rightarrow> delete_children s2 rest)))))"

text \<open>
  Lines 181-203, the target is not a parent. Line 183 reads \<^verbatim>\<open>parentProfile.ProfileId\<close>
  and writes through \<^verbatim>\<open>parentProfile.ProfileHierarchy\<close> with no nil check. In the
  only-child branch the error of the first delete is overwritten by the second.
\<close>

definition delete_child ::
  "store \<Rightarrow> string \<Rightarrow> profile_hierarchy \<Rightarrow> error option outcome \<times> store" where
  "delete_child s pid h =
     (case repo_GetProfile s (ParentProfileID h) of ((parentProfile, _), s1) \<Rightarrow>
      (case parentProfile of
         None \<Rightarrow> (Panic, s1)
       | Some pp \<Rightarrow>
          (case repo_FetchChildProfiles s1 (ProfileId pp) of ((children, _), s2) \<Rightarrow>
           (case ProfileHierarchy pp of
              None \<Rightarrow> (Panic, s2)
            | Some _ \<Rightarrow>
               if length children = 1 then
                 (case repo_DeleteProfile s2 (ParentProfileID h) of (_, s3) \<Rightarrow>
                  (case repo_DeleteProfile s3 pid of (err, s4) \<Rightarrow>
                   (case err of
                      Some e \<Rightarrow> (Return (Some (ServerError ErrWhileDeletingProfile (Some e))), s4)
                    | None \<Rightarrow> (Return None, s4))))
               else
                 (case repo_DetachChildProfileFromParent s2 (ParentProfileID h) pid of (err, s3) \<Rightarrow>
                  (case err of
                     Some e \<Rightarrow> (Return (Some (ServerError ErrWhileDeletingProfile (Some e))), s3)
                   | None \<Rightarrow>
                      (case repo_DeleteProfile s3 pid of (err2, s4) \<Rightarrow>
                       (case err2 of
                          Some e \<Rightarrow> (Return (Some (ServerError ErrWhileDeletingProfile (Some e))), s4)
                        | None \<Rightarrow> (Return None, s4)))))))))"

text \<open>Lines 141-178, the target is a parent: the children are fetched (error discarded).\<close>

definition delete_parent :: "store \<Rightarrow> string \<Rightarrow> profile \<Rightarrow> error option outcome \<times> store" where
  "delete_parent s pid p =
     (case repo_FetchChildProfiles s (ProfileId p) of ((children, _), s1) \<Rightarrow>
      if length children = 0 then
        (case repo_DeleteProfile s1 pid of (err, s2) \<Rightarrow>
         (case err of
            Some e \<Rightarrow> (Return (Some (ServerError ErrWhileDeletingProfile (Some e))), s2)
          | None \<Rightarrow> (Return None, s2)))
      else
        (case delete_children s1 children of (stop, s2) \<Rightarrow>
         (case stop of
            Some e \<Rightarrow> (Return (Some e), s2)
          | None \<Rightarrow>
             (case repo_DeleteProfile s2 pid of (err, s3) \<Rightarrow>
              (case err of
                 Some e \<Rightarrow> (Return (Some (ServerError ErrWhileDeletingProfile (Some e))), s3)
               | None \<Rightarrow> (Return None, s3))))))"

text \<open>Lines 119-206. The result is the returned error (\<open>None\<close> is nil).\<close>

definition DeleteProfile :: "store \<Rightarrow> string \<Rightarrow> error option outcome \<times> store" where
  "DeleteProfile s pid =
     (case repo_GetProfile s pid of ((profile, err), s1) \<Rightarrow>
      (case profile of
         None \<Rightarrow> (Return None, s1)
       | Some p \<Rightarrow>
          (case err of
             Some e \<Rightarrow> (Return (Some (ServerError ErrWhileFetchingProfile (Some e))), s1)
           | None \<Rightarrow>
              (case repo_DeleteEventsByProfileId s1 pid of (err2, s2) \<Rightarrow>
               (case err2 of
                  Some e \<Rightarrow> (Return (Some (ServerError ErrWhileDeletingProfile (Some e))), s2)
                | None \<Rightarrow>
                   (case ProfileHierarchy p of
                      None \<Rightarrow> (Panic, s2)
                    | Some h \<Rightarrow>
                       if IsParent h then delete_parent s2 pid p
                       else delete_child s2 pid h))))))"

section \<open>GetAllProfiles\<close>

text \<open>
  Modelled from the spec: \<^verbatim>\<open>getAllProfiles() -> sequence of Profile, error\<close>; the rows
  returned are those visible in list endpoints (\<open>listProfile\<close>).
\<close>

definition listed :: "profile \<Rightarrow> bool" where
  "listed p = (case ProfileHierarchy p of None \<Rightarrow> False | Some h \<Rightarrow> ListProfile h)"

definition repo_GetAllProfiles :: "store \<Rightarrow> (profile list \<times> db_error option) \<times> store" where
  "repo_GetAllProfiles s =
     (if failing s then (([], Some (DbError GetAllProfilesCall)), issue GetAllProfilesCall s)
      else ((filter listed (profiles s), None), issue GetAllProfilesCall s))"

text \<open>
  The loop of lines 252-272, which lines 327-347 repeat word for word. A row whose
  master cannot be fetched is passed over. Line 267 overwrites \<^verbatim>\<open>master.ProfileId\<close>
  before line 268 reads it.
\<close>

fun merge_rows :: "store \<Rightarrow> profile list \<Rightarrow> profile list \<Rightarrow> profile list outcome \<times> store" where
  "merge_rows s result [] = (Return result, s)"
| "merge_rows s result (profile # rest) =
     (case ProfileHierarchy profile of
        None \<Rightarrow> (Panic, s)
      | Some h \<Rightarrow>
         if IsParent h then merge_rows s (result @ [profile]) rest
         else
           (case repo_GetProfile s (ParentProfileID h) of ((master, err), s1) \<Rightarrow>
            (case err of
               Some _ \<Rightarrow> merge_rows s1 result rest
             | None \<Rightarrow>
                (case master of
                   None \<Rightarrow> merge_rows s1 result rest
                 | Some m \<Rightarrow>
                    (case repo_FetchApplicationData s1 (ProfileId m) of ((appData, _), s2) \<Rightarrow>
                     (case repo_FetchChildProfiles s2 (ProfileId m) of ((children, _), s3) \<Rightarrow>
                      (case ProfileHierarchy m of
                         None \<Rightarrow> (Panic, s3)
                       | Some mh \<Rightarrow>
                          merge_rows s3
                            (result @
                               [m\<lparr>ApplicationData := appData,
                                  ProfileHierarchy :=
                                    Some (mh\<lparr>ChildProfiles := children,
                                              ParentProfileID := ProfileId profile\<rparr>),
                                  ProfileId := ProfileId profile\<rparr>])
                            rest)))))))"

text \<open>Lines 237-274.\<close>

definition GetAllProfiles :: "store \<Rightarrow> (profile list \<times> error option) outcome \<times> store" where
  "GetAllProfiles s =
     (case repo_GetAllProfiles s of ((existingProfiles, err), s1) \<Rightarrow>
      (case err of
         Some e \<Rightarrow> (Return ([], Some (ServerError ErrWhileFetchingProfile (Some e))), s1)
       | None \<Rightarrow>
          (case merge_rows s1 [] existingProfiles of (r, s2) \<Rightarrow>
           (case r of
              Panic \<Rightarrow> (Panic, s2)
            | Return result \<Rightarrow> (Return (result, None), s2)))))"

section \<open>The filter translator\<close>

subsection \<open>Library functions (packages strings, strconv and fmt)\<close>

text \<open>
  \<^verbatim>\<open>strings.SplitN(s, sep, n)\<close> for a one-byte separator and \<open>n \<ge> 0\<close>: at most \<open>n\<close>
  pieces, the last one the unsplit rest; no piece at all for \<open>n = 0\<close>.
\<close>

fun SplitN :: "string \<Rightarrow> char \<Rightarrow> nat \<Rightarrow> string list" where
  "SplitN s sep 0 = []"
| "SplitN s sep (Suc 0) = [s]"
| "SplitN s sep (Suc (Suc n)) =
     (if sep \<in> set s
      then takeWhile (\<lambda>c. c \<noteq> sep) s # SplitN (tl (dropWhile (\<lambda>c. c \<noteq> sep) s)) sep (Suc n)
      else [s])"

datatype num_error = ErrSyntax | ErrRange

definition is_digit :: "char \<Rightarrow> bool" where
  "is_digit c = (c \<in> set ''0123456789'')"

definition digit_value :: "char \<Rightarrow> nat" where
  "digit_value c = of_char c - 48"

definition maxUint64 :: nat where
  "maxUint64 = 2 ^ 64 - 1"

text \<open>
  The digit loop of \<^verbatim>\<open>strconv.ParseUint\<close> in base 10 and 64 bits: a byte that is no
  digit is a syntax error with value 0, an overflow is a range error with the
  largest value, and the loop stops at whichever comes first.
\<close>

fun ParseUint_loop :: "nat \<Rightarrow> string \<Rightarrow> nat \<times> num_error option" where
  "ParseUint_loop n [] = (n, None)"
| "ParseUint_loop n (c # cs) =
     (if \<not> is_digit c then (0, Some ErrSyntax)
      else if n \<ge> maxUint64 div 10 + 1 then (maxUint64, Some ErrRange)
      else if n * 10 + digit_value c > maxUint64 then (maxUint64, Some ErrRange)
      else ParseUint_loop (n * 10 + digit_value c) cs)"

definition ParseUint :: "string \<Rightarrow> nat \<times> num_error option" where
  "ParseUint s = (if s = [] then (0, Some ErrSyntax) else ParseUint_loop 0 s)"

text \<open>\<^verbatim>\<open>strconv.ParseInt(s, 10, 0)\<close> with a 64-bit \<^verbatim>\<open>int\<close>: the result saturates on a range error.\<close>

definition ParseInt :: "string \<Rightarrow> int \<times> num_error option" where
  "ParseInt s =
     (if s = [] then (0, Some ErrSyntax)
      else
        (let neg = (hd s = CHR ''-'');
             s1 = (if hd s = CHR ''+'' \<or> hd s = CHR ''-'' then tl s else s)
         in case ParseUint s1 of (un, err) \<Rightarrow>
              if err = Some ErrSyntax then (0, err)
              else if \<not> neg \<and> un \<ge> 2 ^ 63 then (2 ^ 63 - 1, Some ErrRange)
              else if neg \<and> un > 2 ^ 63 then (- (2 ^ 63), Some ErrRange)
              else (if neg then - int un else int un, None)))"

text \<open>
  \<^verbatim>\<open>strconv.Atoi\<close>: its fast path for short strings computes what \<^verbatim>\<open>ParseInt\<close> does.
\<close>

definition Atoi :: "string \<Rightarrow> int \<times> num_error option" where
  "Atoi s = ParseInt s"

function digits_of :: "nat \<Rightarrow> string" where
  "digits_of n =
     (if n < 10 then [''0123456789'' ! n]
      else digits_of (n div 10) @ [''0123456789'' ! (n mod 10)])"
  by pat_completeness auto
termination
  by (relation "measure id") auto

declare digits_of.simps [simp del]

text \<open>\<^verbatim>\<open>fmt.Sprintf("%v", i)\<close> for an integer.\<close>

definition Itoa :: "int \<Rightarrow> string" where
  "Itoa i = (if i < 0 then CHR ''-'' # digits_of (nat (- i)) else digits_of (nat i))"

subsection \<open>parseTypedValueForFilters and the rewriting loop\<close>

text \<open>
  The dynamic value returned by \<^verbatim>\<open>parseTypedValueForFilters\<close>. Type \<open>'f\<close> stands for
  \<^verbatim>\<open>float64\<close>; \<^verbatim>\<open>strconv.ParseFloat\<close> (error discarded) and the \<^verbatim>\<open>%v\<close> formatting
  of a float are parameters of the model.
\<close>

datatype 'f typed_value = IntValue int | FloatValue 'f | BoolValue bool | StringValue string

text \<open>Lines 351-366.\<close>

definition parseTypedValueForFilters :: "(string \<Rightarrow> 'f) \<Rightarrow> string \<Rightarrow> string \<Rightarrow> 'f typed_value" where
  "parseTypedValueForFilters ParseFloat valueType raw =
     (if valueType = ''int'' then IntValue (fst (Atoi raw))
      else if valueType = ''float'' \<or> valueType = ''double'' then FloatValue (ParseFloat raw)
      else if valueType = ''boolean'' then BoolValue (raw = ''true'')
      else if valueType = ''string'' then StringValue raw
      else StringValue raw)"

text \<open>The type switch of lines 306-312.\<close>

fun valueStr :: "('f \<Rightarrow> string) \<Rightarrow> 'f typed_value \<Rightarrow> string" where
  "valueStr FormatFloat (StringValue v) = v"
| "valueStr FormatFloat (IntValue i) = Itoa i"
| "valueStr FormatFloat (FloatValue f) = FormatFloat f"
| "valueStr FormatFloat (BoolValue b) = (if b then ''true'' else ''false'')"

text \<open>Lines 289-292; a missing key reads as the empty string.\<close>

definition propertyTypeMap :: "profile_enrichment_rule list \<Rightarrow> string \<Rightarrow> string" where
  "propertyTypeMap rules field =
     (case fold (\<lambda>rule m. m(PropertyName rule \<mapsto> ValueType rule)) rules Map.empty field of
        None \<Rightarrow> []
      | Some t \<Rightarrow> t)"

text \<open>The body of the loop of lines 296-314 for a filter that is kept.\<close>

definition rewrite_filter ::
  "(string \<Rightarrow> 'f) \<Rightarrow> ('f \<Rightarrow> string) \<Rightarrow> (string \<Rightarrow> string) \<Rightarrow> string \<Rightarrow> string" where
  "rewrite_filter ParseFloat FormatFloat types f =
     (let parts = SplitN f CHR '' '' 3;
          field = parts ! 0; operator = parts ! 1; rawValue = parts ! 2;
          parsed = parseTypedValueForFilters ParseFloat (types field) rawValue
      in field @ '' '' @ operator @ '' '' @ valueStr FormatFloat parsed)"

fun updatedFilters ::
  "(string \<Rightarrow> 'f) \<Rightarrow> ('f \<Rightarrow> string) \<Rightarrow> (string \<Rightarrow> string) \<Rightarrow> string list \<Rightarrow> string list" where
  "updatedFilters ParseFloat FormatFloat types [] = []"
| "updatedFilters ParseFloat FormatFloat types (f # fs) =
     (if length (SplitN f CHR '' '' 3) \<noteq> 3 then updatedFilters ParseFloat FormatFloat types fs
      else rewrite_filter ParseFloat FormatFloat types f
             # updatedFilters ParseFloat FormatFloat types fs)"

section \<open>GetAllProfilesWithFilter\<close>

text \<open>Modelled from the spec: \<^verbatim>\<open>getProfileEnrichmentRules() -> sequence of {propertyName, valueType}\<close>.\<close>

definition repo_GetProfileEnrichmentRules ::
  "store \<Rightarrow> (profile_enrichment_rule list \<times> db_error option) \<times> store" where
  "repo_GetProfileEnrichmentRules s =
     (if failing s
      then (([], Some (DbError GetProfileEnrichmentRulesCall)), issue GetProfileEnrichmentRulesCall s)
      else ((enrichment_rules s, None), issue GetProfileEnrichmentRulesCall s))"

text \<open>
  Modelled from the spec: \<^verbatim>\<open>getAllProfilesWithFilter(predicates)\<close>; the storage layer
  does the typed comparison, which is the parameter \<open>matches\<close>.
\<close>

definition repo_GetAllProfilesWithFilter ::
  "(string list \<Rightarrow> profile \<Rightarrow> bool) \<Rightarrow> store \<Rightarrow> string list
     \<Rightarrow> (profile list \<times> db_error option) \<times> store" where
  "repo_GetAllProfilesWithFilter matches s fs =
     (if failing s
      then (([], Some (DbError (GetAllProfilesWithFilterCall fs))), issue (GetAllProfilesWithFilterCall fs) s)
      else ((filter (\<lambda>p. listed p \<and> matches fs p) (profiles s), None),
            issue (GetAllProfilesWithFilterCall fs) s))"

text \<open>Lines 277-349.\<close>

definition GetAllProfilesWithFilter ::
  "(string \<Rightarrow> 'f) \<Rightarrow> ('f \<Rightarrow> string) \<Rightarrow> (string list \<Rightarrow> profile \<Rightarrow> bool) \<Rightarrow> store \<Rightarrow> string list
     \<Rightarrow> (profile list \<times> error option) outcome \<times> store" where
  "GetAllProfilesWithFilter ParseFloat FormatFloat matches s filters =
     (case repo_GetProfileEnrichmentRules s of ((rules, err), s1) \<Rightarrow>
      (case err of
         Some e \<Rightarrow> (Return ([], Some (ServerError ErrWhileFetchingProfileEnrichmentRules (Some e))), s1)
       | None \<Rightarrow>
          (case repo_GetAllProfilesWithFilter matches s1
                  (updatedFilters ParseFloat FormatFloat (propertyTypeMap rules) filters) of
             ((existingProfiles, err2), s2) \<Rightarrow>
              (case err2 of
                 Some e \<Rightarrow> (Return ([], Some (ServerError ErrWhileFetchingProfile (Some e))), s2)
               | None \<Rightarrow>
                  (case merge_rows s2 [] existingProfiles of (r, s3) \<Rightarrow>
                   (case r of
                      Panic \<Rightarrow> (Panic, s3)
                    | Return result \<Rightarrow> (Return (result, None), s3)))))))"

section \<open>CreateOrUpdateProfile\<close>

text \<open>
  Modelled from the spec: the session and the named lock of package database.
  \<^verbatim>\<open>acquireNamedLock(session, key) -> bool\<close> fails, finds the lock held by another
  session, or takes it. Closing the session and releasing the lock report nothing
  the service reads.
\<close>

definition db_Conn :: "store \<Rightarrow> db_error option \<times> store" where
  "db_Conn s = (if failing s then (Some (DbError ConnCall), issue ConnCall s) else (None, issue ConnCall s))"

definition conn_Close :: "store \<Rightarrow> store" where
  "conn_Close s = issue ConnCloseCall s"

definition lock_Acquire :: "store \<Rightarrow> string \<Rightarrow> (bool \<times> db_error option) \<times> store" where
  "lock_Acquire s key =
     (if failing s then ((False, Some (DbError (AcquireCall key))), issue (AcquireCall key) s)
      else if contended s then ((False, None), issue (AcquireCall key) s)
      else ((True, None), issue (AcquireCall key) s))"

definition lock_Release :: "store \<Rightarrow> string \<Rightarrow> store" where
  "lock_Release s key = issue (ReleaseCall key) s"

text \<open>Modelled from the spec: \<^verbatim>\<open>insertProfile(Profile) -> error\<close> (insert-if-absent on \<open>profileId\<close>).\<close>

definition repo_InsertProfile :: "store \<Rightarrow> profile \<Rightarrow> db_error option \<times> store" where
  "repo_InsertProfile s p =
     (if failing s
      then (Some (DbError (InsertProfileCall (ProfileId p))), issue (InsertProfileCall (ProfileId p)) s)
      else (None, issue (InsertProfileCall (ProfileId p))
                    (case find (has_id (ProfileId p)) (profiles s) of
                       None \<Rightarrow> s\<lparr>profiles := profiles s @ [p]\<rparr>
                     | Some _ \<Rightarrow> s)))"

text \<open>
  The loop of lines 35-44 from attempt \<open>i\<close> on, with the values of \<^verbatim>\<open>acquired\<close> and
  \<^verbatim>\<open>err\<close> after it. \<^verbatim>\<open>constants.MaxRetryAttempts\<close> is not among the source files
  and is the first argument. The sleep between attempts is not modelled.
\<close>

function acquire_loop :: "int \<Rightarrow> string \<Rightarrow> store \<Rightarrow> int \<Rightarrow> (bool \<times> db_error option) \<times> store" where
  "acquire_loop MaxRetryAttempts lockIdentifier s i =
     (if i < MaxRetryAttempts then
        (case lock_Acquire s lockIdentifier of ((acquired, err), s1) \<Rightarrow>
         (case err of
            Some e \<Rightarrow> ((acquired, Some e), s1)
          | None \<Rightarrow>
             if acquired then ((True, None), s1)
             else acquire_loop MaxRetryAttempts lockIdentifier s1 (i + 1)))
      else ((False, None), s))"
  by pat_completeness auto
termination
  by (relation "measure (\<lambda>(m, k, s, i). nat (m - i))") auto

declare acquire_loop.simps [simp del]

text \<open>The loop of lines 215-227 from attempt \<open>i\<close> on, followed by lines 230-233.\<close>

function wait_loop ::
  "string \<Rightarrow> int \<Rightarrow> store \<Rightarrow> db_error option \<Rightarrow> int \<Rightarrow> (profile option \<times> error option) \<times> store" where
  "wait_loop profileID maxRetries s lastErr i =
     (if i < maxRetries then
        (case repo_GetProfile s profileID of ((profile, err), s1) \<Rightarrow>
         (case profile of
            Some p \<Rightarrow> ((Some p, None), s1)
          | None \<Rightarrow> wait_loop profileID maxRetries s1 err (i + 1)))
      else ((None, Some (NotVisibleAfterRetries profileID maxRetries lastErr)), s))"
  by pat_completeness auto
termination
  by (relation "measure (\<lambda>(p, m, s, e, i). nat (m - i))") auto

declare wait_loop.simps [simp del]

definition waitForProfile ::
  "store \<Rightarrow> string \<Rightarrow> int \<Rightarrow> (profile option \<times> error option) \<times> store" where
  "waitForProfile s profileID maxRetries = wait_loop profileID maxRetries s None 0"

text \<open>Lines 54-63.\<close>

definition profileToUpsert :: "event \<Rightarrow> profile" where
  "profileToUpsert event =
     \<lparr>ProfileId = EventProfileId event,
      ProfileHierarchy =
        Some \<lparr>IsParent = True, ParentProfileID = [], ListProfile = True, ChildProfiles = []\<rparr>,
      IdentityAttributes = [],
      Traits = [],
      ApplicationData = []\<rparr>"

text \<open>
  The deferred calls on the way out: the lock is released, then the session is
  closed (lines 48-50 and 27); before line 48 only the session is closed.
\<close>

definition release_and_close :: "store \<Rightarrow> string \<Rightarrow> store" where
  "release_and_close s lockIdentifier = conn_Close (lock_Release s lockIdentifier)"

text \<open>Lines 19-75.\<close>

definition CreateOrUpdateProfile ::
  "int \<Rightarrow> store \<Rightarrow> event \<Rightarrow> (profile option \<times> error option) \<times> store" where
  "CreateOrUpdateProfile MaxRetryAttempts s event =
     (case db_Conn s of (connErr, s1) \<Rightarrow>
      (case connErr of
         Some e \<Rightarrow> ((None, Some (FailedToGetDBConnection e)), s1)
       | None \<Rightarrow>
          (case acquire_loop MaxRetryAttempts (EventProfileId event) s1 0 of ((acquired, err), s2) \<Rightarrow>
           (case err of
              Some e \<Rightarrow> ((None, Some (LockAcquisitionError (EventProfileId event) e)), conn_Close s2)
            | None \<Rightarrow>
               if \<not> acquired
               then ((None, Some (CouldNotAcquireLock (EventProfileId event) MaxRetryAttempts)),
                     conn_Close s2)
               else
                 (case repo_InsertProfile s2 (profileToUpsert event) of (insErr, s3) \<Rightarrow>
                  (case insErr of
                     Some e \<Rightarrow>
                       ((None, Some (FailedToInsertOrUpdate (EventProfileId event) e)),
                        release_and_close s3 (EventProfileId event))
                   | None \<Rightarrow>
                      (case waitForProfile s3 (EventProfileId event) MaxRetryAttempts of
                         ((profileFetched, errWait), s4) \<Rightarrow>
                          if errWait \<noteq> None \<or> profileFetched = None
                          then ((None, Some (NotVisibleAfterInsert (EventProfileId event) errWait)),
                                release_and_close s4 (EventProfileId event))
                          else ((profileFetched, None),
                                release_and_close s4 (EventProfileId event)))))))))"

section \<open>A sample store\<close>

text \<open>
  The scenario of the spec's merge-transparency property: parent \<open>P\<close> with traits
  \<open>{"a": 1}\<close> and application data \<open>[{"app": "x"}]\<close>, and its only child \<open>C\<close>. Each
  profile has one event.
\<close>

definition example_parent :: profile where
  "example_parent =
     \<lparr>ProfileId = ''P'',
      ProfileHierarchy =
        Some \<lparr>IsParent = True, ParentProfileID = [], ListProfile = True, ChildProfiles = []\<rparr>,
      IdentityAttributes = [(''user_id'', AnyString ''u1'')],
      Traits = [(''a'', AnyInt 1)],
      ApplicationData = []\<rparr>"

definition example_child :: profile where
  "example_child =
     \<lparr>ProfileId = ''C'',
      ProfileHierarchy =
        Some \<lparr>IsParent = False, ParentProfileID = ''P'', ListProfile = True, ChildProfiles = []\<rparr>,
      IdentityAttributes = [],
      Traits = [(''b'', AnyInt 2)],
      ApplicationData = []\<rparr>"

definition example_store :: store where
  "example_store =
     \<lparr>profiles = [example_parent, example_child],
      application_data = [(''P'', [[(''app'', AnyString ''x'')]])],
      child_profiles = [(''P'', [\<lparr>ChildProfileId = ''C''\<rparr>])],
      events = [\<lparr>EventProfileId = ''P''\<rparr>, \<lparr>EventProfileId = ''C''\<rparr>],
      enrichment_rules = [\<lparr>PropertyName = ''age'', ValueType = ''int''\<rparr>],
      calls = [],
      faults = [],
      busy = []\<rparr>"

text \<open>The view of \<open>C\<close> merged from \<open>P\<close>, with a given parent identifier.\<close>

definition example_view :: "string \<Rightarrow> profile" where
  "example_view parent =
     \<lparr>ProfileId = ''C'',
      ProfileHierarchy =
        Some \<lparr>IsParent = True, ParentProfileID = parent, ListProfile = True,
              ChildProfiles = [\<lparr>ChildProfileId = ''C''\<rparr>]\<rparr>,
      IdentityAttributes = [(''user_id'', AnyString ''u1'')],
      Traits = [(''a'', AnyInt 1)],
      ApplicationData = [[(''app'', AnyString ''x'')]]\<rparr>"

section \<open>Reading the trace\<close>

text \<open>The calls issued between two states of the store.\<close>

definition new_calls :: "store \<Rightarrow> store \<Rightarrow> repo_call list" where
  "new_calls s s' = drop (length (calls s)) (calls s')"

text \<open>
  No row is deleted before the events of \<open>pid\<close> have been asked to go: reading the
  calls from the oldest on, the event deletion for \<open>pid\<close> comes before any
  \<open>DeleteProfileCall\<close>.
\<close>

definition is_row_delete :: "repo_call \<Rightarrow> bool" where
  "is_row_delete c = (case c of DeleteProfileCall _ \<Rightarrow> True | _ \<Rightarrow> False)"

fun events_removed_first :: "string \<Rightarrow> repo_call list \<Rightarrow> bool" where
  "events_removed_first pid [] = True"
| "events_removed_first pid (c # cs) =
     (if c = DeleteEventsByProfileIdCall pid then True
      else if is_row_delete c then False
      else events_removed_first pid cs)"

section \<open>Lock acquisition that does not succeed\<close>

text \<open>The two errors with which \<^verbatim>\<open>CreateOrUpdateProfile\<close> reports that it has no lock.\<close>

fun is_lock_error :: "error \<Rightarrow> bool" where
  "is_lock_error (LockAcquisitionError _ _) = True"
| "is_lock_error (CouldNotAcquireLock _ _) = True"
| "is_lock_error _ = False"

text \<open>
  From call position \<open>pos\<close> on, \<open>k\<close> attempts do not take the lock: the attempt fails,
  or it finds the lock held by another session and the remaining attempts do no
  better.
\<close>

fun lock_unavailable :: "store \<Rightarrow> nat \<Rightarrow> nat \<Rightarrow> bool" where
  "lock_unavailable s pos 0 = True"
| "lock_unavailable s pos (Suc k) =
     (pos \<in> set (faults s) \<or> (pos \<in> set (busy s) \<and> lock_unavailable s (Suc pos) k))"

text \<open>The tables of two states of the store agree.\<close>

definition same_tables :: "store \<Rightarrow> store \<Rightarrow> bool" where
  "same_tables s s' =
     (profiles s' = profiles s \<and> application_data s' = application_data s
      \<and> child_profiles s' = child_profiles s \<and> events s' = events s
      \<and> enrichment_rules s' = enrichment_rules s)"

section \<open>Decimal integers\<close>

text \<open>
  What a text denotes as a decimal integer, independently of the parsing loop: an
  optional sign followed by at least one digit, read by Horner's rule.
\<close>

definition decimal :: "nat \<Rightarrow> string \<Rightarrow> nat" where
  "decimal n ds = fold (\<lambda>c n. n * 10 + digit_value c) ds n"

definition well_formed_int :: "string \<Rightarrow> bool" where
  "well_formed_int s =
     (case s of
        [] \<Rightarrow> False
      | c # cs \<Rightarrow>
         if c = CHR ''+'' \<or> c = CHR ''-'' then cs \<noteq> [] \<and> list_all is_digit cs
         else list_all is_digit s)"

definition int_value :: "string \<Rightarrow> int" where
  "int_value s =
     (case s of
        [] \<Rightarrow> 0
      | c # cs \<Rightarrow>
         if c = CHR ''-'' then - int (decimal 0 cs)
         else if c = CHR ''+'' then int (decimal 0 cs)
         else int (decimal 0 s))"

section \<open>Basic facts about the store\<close>

lemma issue_fields [simp]:
  "profiles (issue c s) = profiles s"
  "application_data (issue c s) = application_data s"
  "child_profiles (issue c s) = child_profiles s"
  "events (issue c s) = events s"
  "enrichment_rules (issue c s) = enrichment_rules s"
  "faults (issue c s) = faults s"
  "busy (issue c s) = busy s"
  "calls (issue c s) = calls s @ [c]"
  by (simp_all add: issue_def)

lemmas example_defs = example_store_def example_parent_def example_child_def

lemmas repo_defs = repo_GetProfile_def repo_FetchApplicationData_def repo_FetchChildProfiles_def
  repo_DeleteProfile_def repo_DetachChildProfileFromParent_def repo_DeleteEventsByProfileId_def
  repo_GetAllProfiles_def failing_def has_id_def lookup_list_def

lemma same_tables_issue [simp]: "same_tables s (issue c s') = same_tables s s'"
  by (simp add: same_tables_def)

lemma same_tables_refl [simp]: "same_tables s s"
  by (simp add: same_tables_def)

lemma find_has_id: "find (has_id pid) ps = Some p \<Longrightarrow> ProfileId p = pid"
  by (auto simp: find_Some_iff has_id_def)

section \<open>The merged view of a child (GetProfile)\<close>

text \<open>Whatever the store and the identifier, \<open>GetProfile\<close> leaves every table as it was.\<close>

lemma GetProfile_changes_no_table: "same_tables s (snd (GetProfile s pid))"
  by (auto simp: GetProfile_def repo_GetProfile_def repo_FetchApplicationData_def
      repo_FetchChildProfiles_def same_tables_def split: option.splits if_splits)

text \<open>
  Claim C1. Let \<open>C\<close> be a stored profile that is not a parent and names \<open>P\<close> as its
  parent, let \<open>P\<close> be a stored parent profile, and let the storage collaborator
  answer every call. Then \<open>GetProfile C\<close> returns a profile with identifier \<open>C\<close>,
  with the traits and identity attributes of \<open>P\<close>, with the application data and
  child list stored for \<open>P\<close>, and with \<open>P\<close> as its parent identifier. No table of the
  store changes; the calls issued are the four reads listed.
\<close>

theorem GetProfile_child_merged_view:
  assumes "faults s = []"
    and "find (has_id C) (profiles s) = Some c"
    and "ProfileHierarchy c = Some h"
    and "\<not> IsParent h"
    and "ParentProfileID h = P"
    and "find (has_id P) (profiles s) = Some p"
    and "ProfileHierarchy p = Some ph"
    and "IsParent ph"
  shows "\<exists>r rh s'. GetProfile s C = (Return (Some r, None), s')
           \<and> ProfileId r = C
           \<and> Traits r = Traits p
           \<and> IdentityAttributes r = IdentityAttributes p
           \<and> ApplicationData r = lookup_list (application_data s) P
           \<and> ProfileHierarchy r = Some rh
           \<and> ParentProfileID rh = P
           \<and> ChildProfiles rh = lookup_list (child_profiles s) P
           \<and> profiles s' = profiles s
           \<and> application_data s' = application_data s
           \<and> child_profiles s' = child_profiles s
           \<and> events s' = events s
           \<and> calls s' = calls s @ [GetProfileCall C, GetProfileCall P,
                                     FetchApplicationDataCall P, FetchChildProfilesCall P]"
proof -
  have idc: "ProfileId c = C" and idp: "ProfileId p = P"
    using assms(2,6) by (simp_all add: find_has_id)
  show ?thesis
    using assms idc idp
    by (simp add: GetProfile_def repo_GetProfile_def repo_FetchApplicationData_def
        repo_FetchChildProfiles_def failing_def)
qed

theorem GetProfile_child_merged_view_witness:
  "\<exists>r rh s'. GetProfile example_store ''C'' = (Return (Some r, None), s')
           \<and> ProfileId r = ''C''
           \<and> Traits r = Traits example_parent
           \<and> IdentityAttributes r = IdentityAttributes example_parent
           \<and> ApplicationData r = lookup_list (application_data example_store) ''P''
           \<and> ProfileHierarchy r = Some rh
           \<and> ParentProfileID rh = ''P''
           \<and> ChildProfiles rh = lookup_list (child_profiles example_store) ''P''
           \<and> profiles s' = profiles example_store
           \<and> application_data s' = application_data example_store
           \<and> child_profiles s' = child_profiles example_store
           \<and> events s' = events example_store
           \<and> calls s' = calls example_store @ [GetProfileCall ''C'', GetProfileCall ''P'',
                                     FetchApplicationDataCall ''P'', FetchChildProfilesCall ''P'']"
  by (rule GetProfile_child_merged_view [where c = example_child and p = example_parent
        and h = "\<lparr>IsParent = False, ParentProfileID = ''P'', ListProfile = True, ChildProfiles = []\<rparr>"
        and ph = "\<lparr>IsParent = True, ParentProfileID = [], ListProfile = True, ChildProfiles = []\<rparr>"])
     (simp_all add: example_store_def example_parent_def example_child_def has_id_def)

section \<open>The merged view in list results (GetAllProfiles)\<close>

text \<open>
  Claim C2. The claim says that a list operation gives a non-parent row the same
  merged view as \<open>GetProfile\<close> gives for that row's identifier. On the sample store
  the two differ: the list entry for \<open>C\<close>, with or without filters, carries \<open>C\<close>
  itself as parent identifier, the single-profile view carries \<open>P\<close>.
\<close>

theorem GetAllProfiles_view_differs:
  "fst (GetAllProfiles example_store) = Return ([example_parent, example_view ''C''], None)
   \<and> fst (GetAllProfilesWithFilter id id (\<lambda>fs p. True) example_store [])
       = Return ([example_parent, example_view ''C''], None)
   \<and> fst (GetProfile example_store ''C'') = Return (Some (example_view ''P''), None)"
  by (simp add: GetAllProfiles_def GetAllProfilesWithFilter_def GetProfile_def repo_defs
      repo_GetProfileEnrichmentRules_def repo_GetAllProfilesWithFilter_def
      example_defs example_view_def listed_def)

section \<open>Error classes of GetProfile\<close>

text \<open>
  Claim C7. The claim says that a failure of the storage collaborator on the first
  fetch is reported as a server error. In the sample store with the first call
  failing, the profile \<open>C\<close> is stored, the repository answers with no profile and
  an error, and \<open>GetProfile\<close> reports the client error "profile not found".
\<close>

theorem GetProfile_fetch_failure_is_not_found:
  "find (has_id ''C'') (profiles (example_store\<lparr>faults := [0]\<rparr>)) = Some example_child
   \<and> repo_GetProfile (example_store\<lparr>faults := [0]\<rparr>) ''C''
       = ((None, Some (DbError (GetProfileCall ''C''))), issue (GetProfileCall ''C'') (example_store\<lparr>faults := [0]\<rparr>))
   \<and> fst (GetProfile (example_store\<lparr>faults := [0]\<rparr>) ''C'')
       = Return (None, Some (ClientError ErrProfileNotFound 404))"
  by (simp add: GetProfile_def repo_defs example_defs StatusNotFound_def)

text \<open>
  Claim C10. The claim says that the fetched parent is dereferenced only when it is
  non-nil. When the parent of \<open>C\<close> is not stored, or when fetching it fails,
  \<open>GetProfile\<close> panics.
\<close>

theorem GetProfile_missing_parent_panics:
  "fst (GetProfile (example_store\<lparr>profiles := [example_child]\<rparr>) ''C'') = Panic
   \<and> fst (GetProfile (example_store\<lparr>faults := [1]\<rparr>) ''C'') = Panic"
  by (simp add: GetProfile_def repo_defs example_defs)

section \<open>DeleteProfile\<close>

text \<open>
  Claim C3. Let \<open>C\<close> be a stored profile that is not a parent and names \<open>P\<close> as its
  parent, let \<open>P\<close> be a stored parent profile whose child list is exactly \<open>[C]\<close>, and
  let the storage collaborator answer every call. Then \<open>DeleteProfile C\<close> succeeds
  and removes the rows of both \<open>P\<close> and \<open>C\<close>; the other rows stay.
\<close>

theorem DeleteProfile_only_child:
  assumes "faults s = []"
    and "find (has_id C) (profiles s) = Some c"
    and "ProfileHierarchy c = Some h"
    and "\<not> IsParent h"
    and "ParentProfileID h = P"
    and "find (has_id P) (profiles s) = Some p"
    and "ProfileHierarchy p = Some ph"
    and "IsParent ph"
    and "lookup_list (child_profiles s) P = [\<lparr>ChildProfileId = C\<rparr>]"
  shows "\<exists>s'. DeleteProfile s C = (Return None, s')
           \<and> profiles s' = filter (\<lambda>q. ProfileId q \<noteq> P \<and> ProfileId q \<noteq> C) (profiles s)
           \<and> find (has_id P) (profiles s') = None
           \<and> find (has_id C) (profiles s') = None"
proof -
  have idc: "ProfileId c = C" and idp: "ProfileId p = P"
    using assms(2,6) by (simp_all add: find_has_id)
  note defs = DeleteProfile_def delete_child_def repo_GetProfile_def repo_FetchChildProfiles_def
        repo_DeleteProfile_def repo_DeleteEventsByProfileId_def failing_def
  have r: "fst (DeleteProfile s C) = Return None"
    using assms idc idp by (simp add: defs)
  have ps: "profiles (snd (DeleteProfile s C))
              = filter (\<lambda>q. \<not> has_id C q) (filter (\<lambda>q. \<not> has_id P q) (profiles s))"
    using assms idc idp by (simp add: defs)
  have ps': "profiles (snd (DeleteProfile s C))
              = filter (\<lambda>q. ProfileId q \<noteq> P \<and> ProfileId q \<noteq> C) (profiles s)"
    unfolding ps by (simp add: has_id_def conj_commute)
  have "find (has_id P) (profiles (snd (DeleteProfile s C))) = None"
    and "find (has_id C) (profiles (snd (DeleteProfile s C))) = None"
    unfolding ps' by (auto simp: find_None_iff has_id_def)
  with r ps' show ?thesis
    by (cases "DeleteProfile s C") simp
qed


theorem DeleteProfile_only_child_witness:
  "\<exists>s'. DeleteProfile example_store ''C'' = (Return None, s')
           \<and> profiles s' = filter (\<lambda>q. ProfileId q \<noteq> ''P'' \<and> ProfileId q \<noteq> ''C'') (profiles example_store)
           \<and> find (has_id ''P'') (profiles s') = None
           \<and> find (has_id ''C'') (profiles s') = None"
  by (rule DeleteProfile_only_child [where c = example_child and p = example_parent
        and h = "\<lparr>IsParent = False, ParentProfileID = ''P'', ListProfile = True, ChildProfiles = []\<rparr>"
        and ph = "\<lparr>IsParent = True, ParentProfileID = [], ListProfile = True, ChildProfiles = []\<rparr>"])
     (simp_all add: example_defs has_id_def lookup_list_def)

lemma repo_DeleteProfile_removes:
  "repo_DeleteProfile s pid = (None, s') \<Longrightarrow> find (has_id pid) (profiles s') = None"
  by (auto simp: repo_DeleteProfile_def find_None_iff split: if_splits)

lemma delete_child_success_removes:
  "fst (delete_child s pid h) = Return None \<Longrightarrow>
     find (has_id pid) (profiles (snd (delete_child s pid h))) = None"
  by (auto simp: delete_child_def split: prod.splits option.splits if_splits
      dest: repo_DeleteProfile_removes)

lemma delete_parent_success_removes:
  "fst (delete_parent s pid p) = Return None \<Longrightarrow>
     find (has_id pid) (profiles (snd (delete_parent s pid p))) = None"
  by (auto simp: delete_parent_def split: prod.splits option.splits if_splits
      dest: repo_DeleteProfile_removes)

lemma DeleteProfile_success_removes:
  assumes "\<not> failing s" and "fst (DeleteProfile s pid) = Return None"
  shows "find (has_id pid) (profiles (snd (DeleteProfile s pid))) = None"
proof (cases "find (has_id pid) (profiles s)")
  case None
  then show ?thesis
    by (simp add: DeleteProfile_def repo_GetProfile_def)
next
  case (Some p)
  with assms show ?thesis
    by (auto simp: DeleteProfile_def repo_GetProfile_def
        split: prod.splits option.splits if_splits
        dest: delete_child_success_removes delete_parent_success_removes)
qed

lemma DeleteProfile_absent:
  "find (has_id pid) (profiles s) = None \<Longrightarrow>
     DeleteProfile s pid = (Return None, issue (GetProfileCall pid) s)"
  by (simp add: DeleteProfile_def repo_GetProfile_def)

text \<open>
  Claim C5. If no profile is stored under an identifier, \<open>DeleteProfile\<close> returns
  nil, leaves every table as it was and issues one call, the read of that
  identifier (no event deletion, no row deletion, no detach). And when
  \<open>DeleteProfile\<close> has returned nil after a first fetch that did not fail, the
  identifier is no longer stored, so that a second call is such a no-op.
\<close>

theorem DeleteProfile_absent_is_noop:
  "(find (has_id pid) (profiles s) = None \<longrightarrow>
      fst (DeleteProfile s pid) = Return None
      \<and> profiles (snd (DeleteProfile s pid)) = profiles s
      \<and> application_data (snd (DeleteProfile s pid)) = application_data s
      \<and> child_profiles (snd (DeleteProfile s pid)) = child_profiles s
      \<and> events (snd (DeleteProfile s pid)) = events s
      \<and> calls (snd (DeleteProfile s pid)) = calls s @ [GetProfileCall pid])
   \<and> (\<not> failing s \<and> fst (DeleteProfile s pid) = Return None \<longrightarrow>
      find (has_id pid) (profiles (snd (DeleteProfile s pid))) = None
      \<and> DeleteProfile (snd (DeleteProfile s pid)) pid
          = (Return None, issue (GetProfileCall pid) (snd (DeleteProfile s pid))))"
proof (intro conjI impI)
  assume "\<not> failing s \<and> fst (DeleteProfile s pid) = Return None"
  then show gone: "find (has_id pid) (profiles (snd (DeleteProfile s pid))) = None"
    by (simp add: DeleteProfile_success_removes)
  then show "DeleteProfile (snd (DeleteProfile s pid)) pid
          = (Return None, issue (GetProfileCall pid) (snd (DeleteProfile s pid)))"
    by (rule DeleteProfile_absent)
qed (simp_all add: DeleteProfile_absent)

theorem DeleteProfile_absent_is_noop_witness:
  "fst (DeleteProfile example_store ''X'') = Return None
   \<and> profiles (snd (DeleteProfile example_store ''X'')) = profiles example_store
   \<and> events (snd (DeleteProfile example_store ''X'')) = events example_store
   \<and> calls (snd (DeleteProfile example_store ''X'')) = [GetProfileCall ''X'']
   \<and> fst (DeleteProfile example_store ''P'') = Return None
   \<and> DeleteProfile (snd (DeleteProfile example_store ''P'')) ''P''
          = (Return None, issue (GetProfileCall ''P'') (snd (DeleteProfile example_store ''P'')))"
proof -
  have absent: "find (has_id ''X'') (profiles example_store) = None"
    by (simp add: example_defs has_id_def)
  have deleted: "\<not> failing example_store \<and> fst (DeleteProfile example_store ''P'') = Return None"
    by (simp add: DeleteProfile_def delete_parent_def repo_defs example_defs)
  have nocalls: "calls example_store = []"
    by (simp add: example_store_def)
  from DeleteProfile_absent_is_noop [where pid = "''X''" and s = example_store] absent
  have first: "fst (DeleteProfile example_store ''X'') = Return None
      \<and> profiles (snd (DeleteProfile example_store ''X'')) = profiles example_store
      \<and> events (snd (DeleteProfile example_store ''X'')) = events example_store
      \<and> calls (snd (DeleteProfile example_store ''X'')) = [GetProfileCall ''X'']"
    by (simp add: nocalls)
  from DeleteProfile_absent_is_noop [where pid = "''P''" and s = example_store] deleted
  have again: "DeleteProfile (snd (DeleteProfile example_store ''P'')) ''P''
          = (Return None, issue (GetProfileCall ''P'') (snd (DeleteProfile example_store ''P'')))"
    by blast
  from first deleted again show ?thesis by blast
qed

text \<open>What a repository call does to the trace and to the events.\<close>

lemma repo_GetProfile_store: "repo_GetProfile s pid = (r, s') \<Longrightarrow> s' = issue (GetProfileCall pid) s"
  by (auto simp: repo_GetProfile_def split: if_splits)

lemma repo_FetchChildProfiles_store:
  "repo_FetchChildProfiles s pid = (r, s') \<Longrightarrow> s' = issue (FetchChildProfilesCall pid) s"
  by (auto simp: repo_FetchChildProfiles_def split: if_splits)

lemma repo_DeleteProfile_trace:
  "repo_DeleteProfile s pid = (r, s') \<Longrightarrow>
     calls s' = calls s @ [DeleteProfileCall pid] \<and> events s' = events s"
  by (auto simp: repo_DeleteProfile_def split: if_splits)

lemma repo_Detach_trace:
  "repo_DetachChildProfileFromParent s a b = (r, s') \<Longrightarrow>
     calls s' = calls s @ [DetachChildProfileFromParentCall a b] \<and> events s' = events s"
  by (auto simp: repo_DetachChildProfileFromParent_def split: if_splits)

lemma repo_DeleteEvents_trace:
  "repo_DeleteEventsByProfileId s pid = (r, s') \<Longrightarrow>
     calls s' = calls s @ [DeleteEventsByProfileIdCall pid]
     \<and> events s' = (if r = None then filter (\<lambda>e. EventProfileId e \<noteq> pid) (events s) else events s)"
  by (auto simp: repo_DeleteEventsByProfileId_def split: if_splits)

lemma delete_children_trace:
  "\<exists>ext. calls (snd (delete_children s cs)) = calls s @ ext
         \<and> events (snd (delete_children s cs)) = events s"
proof (induction cs arbitrary: s)
  case Nil
  show ?case by simp
next
  case (Cons c cs)
  show ?case
  proof (cases "repo_GetProfile s (ChildProfileId c)")
    case (Pair r s1)
    note g = repo_GetProfile_store [OF Pair]
    obtain profile err where r: "r = (profile, err)" by (cases r)
    show ?thesis
    proof (cases "repo_DeleteProfile s1 (ChildProfileId c)")
      case del: (Pair err2 s2)
      note d = repo_DeleteProfile_trace [OF del]
      from Cons.IH [of s2] obtain ext where
        ih: "calls (snd (delete_children s2 cs)) = calls s2 @ ext"
            "events (snd (delete_children s2 cs)) = events s2" by blast
      show ?thesis
        using Pair r g del d ih
        by (auto split: option.splits)
    qed
  qed
qed

lemma delete_parent_trace:
  "\<exists>ext. calls (snd (delete_parent s pid p)) = calls s @ ext
         \<and> events (snd (delete_parent s pid p)) = events s"
proof -
  obtain r s1 where f: "repo_FetchChildProfiles s (ProfileId p) = (r, s1)"
    by (cases "repo_FetchChildProfiles s (ProfileId p)")
  note f' = repo_FetchChildProfiles_store [OF f]
  obtain children e where r: "r = (children, e)" by (cases r)
  obtain e1 s2 where d1: "repo_DeleteProfile s1 pid = (e1, s2)"
    by (cases "repo_DeleteProfile s1 pid")
  note d1' = repo_DeleteProfile_trace [OF d1]
  obtain stop s3 where dc: "delete_children s1 children = (stop, s3)"
    by (cases "delete_children s1 children")
  from delete_children_trace [of s1 children] dc obtain ext where
    dc': "calls s3 = calls s1 @ ext" "events s3 = events s1" by auto
  obtain e2 s4 where d2: "repo_DeleteProfile s3 pid = (e2, s4)"
    by (cases "repo_DeleteProfile s3 pid")
  note d2' = repo_DeleteProfile_trace [OF d2]
  show ?thesis
    using f f' r d1 d1' dc dc' d2 d2'
    by (auto simp: delete_parent_def split: option.splits)
qed

lemma delete_child_trace:
  "\<exists>ext. calls (snd (delete_child s pid h)) = calls s @ ext
         \<and> events (snd (delete_child s pid h)) = events s"
proof -
  obtain r s1 where g: "repo_GetProfile s (ParentProfileID h) = (r, s1)"
    by (cases "repo_GetProfile s (ParentProfileID h)")
  note g' = repo_GetProfile_store [OF g]
  show ?thesis
    using g g'
    by (auto simp: delete_child_def split: option.splits prod.splits
        dest!: repo_FetchChildProfiles_store repo_DeleteProfile_trace repo_Detach_trace)
qed


lemma DeleteProfile_trace:
  "new_calls s (snd (DeleteProfile s pid)) = [GetProfileCall pid]
     \<and> events (snd (DeleteProfile s pid)) = events s
   \<or> new_calls s (snd (DeleteProfile s pid)) = [GetProfileCall pid, DeleteEventsByProfileIdCall pid]
     \<and> events (snd (DeleteProfile s pid)) = events s
   \<or> (\<exists>ext. new_calls s (snd (DeleteProfile s pid))
               = GetProfileCall pid # DeleteEventsByProfileIdCall pid # ext)
     \<and> events (snd (DeleteProfile s pid)) = filter (\<lambda>e. EventProfileId e \<noteq> pid) (events s)"
proof -
  obtain r s1 where g: "repo_GetProfile s pid = (r, s1)"
    by (cases "repo_GetProfile s pid")
  note g' = repo_GetProfile_store [OF g]
  obtain profile err where r: "r = (profile, err)" by (cases r)
  obtain err2 s2 where d: "repo_DeleteEventsByProfileId s1 pid = (err2, s2)"
    by (cases "repo_DeleteEventsByProfileId s1 pid")
  note d' = repo_DeleteEvents_trace [OF d]
  have s2: "calls s2 = calls s @ [GetProfileCall pid, DeleteEventsByProfileIdCall pid]"
    using d' g' by simp
  have par: "\<exists>ext. calls (snd (delete_parent s2 pid p)) = calls s @ GetProfileCall pid # DeleteEventsByProfileIdCall pid # ext
         \<and> events (snd (delete_parent s2 pid p)) = events s2" for p
    using delete_parent_trace [of s2 pid p] s2 by auto
  have chi: "\<exists>ext. calls (snd (delete_child s2 pid h)) = calls s @ GetProfileCall pid # DeleteEventsByProfileIdCall pid # ext
         \<and> events (snd (delete_child s2 pid h)) = events s2" for h
    using delete_child_trace [of s2 pid h] s2 by auto
  show ?thesis
  proof (cases profile)
    case None
    then show ?thesis using g g' r by (simp add: DeleteProfile_def new_calls_def)
  next
    case (Some p)
    show ?thesis
    proof (cases err)
      case (Some e)
      then show ?thesis using g g' r \<open>profile = Some p\<close> by (simp add: DeleteProfile_def new_calls_def)
    next
      case None
      show ?thesis
      proof (cases err2)
        case (Some e)
        then show ?thesis
          using g g' r \<open>profile = Some p\<close> \<open>err = None\<close> d d' s2
          by (simp add: DeleteProfile_def new_calls_def)
      next
        case no: None
        show ?thesis
        proof (cases "ProfileHierarchy p")
          case None
          then show ?thesis
            using g g' r \<open>profile = Some p\<close> \<open>err = None\<close> d d' s2 no
            by (simp add: DeleteProfile_def new_calls_def)
        next
          case (Some h)
          then show ?thesis
            using g g' r \<open>profile = Some p\<close> \<open>err = None\<close> d d' no par [of p] chi [of h]
            by (auto simp: DeleteProfile_def new_calls_def)
        qed
      qed
    qed
  qed
qed

text \<open>
  Claim C4. The claim says that every row \<open>DeleteProfile\<close> deletes has its events
  removed first. On the sample store, deleting the only child \<open>C\<close> deletes the row
  of \<open>P\<close> with no event deletion for \<open>P\<close>, and the event of \<open>P\<close> stays; deleting the
  parent \<open>P\<close> deletes the row of \<open>C\<close> and the event of \<open>C\<close> stays.
\<close>

theorem DeleteProfile_leaves_events_of_other_rows:
  "find (has_id ''P'') (profiles example_store) = Some example_parent
   \<and> DeleteProfileCall ''P'' \<in> set (calls (snd (DeleteProfile example_store ''C'')))
   \<and> find (has_id ''P'') (profiles (snd (DeleteProfile example_store ''C''))) = None
   \<and> DeleteEventsByProfileIdCall ''P'' \<notin> set (calls (snd (DeleteProfile example_store ''C'')))
   \<and> \<lparr>EventProfileId = ''P''\<rparr> \<in> set (events (snd (DeleteProfile example_store ''C'')))
   \<and> find (has_id ''C'') (profiles (snd (DeleteProfile example_store ''P''))) = None
   \<and> \<lparr>EventProfileId = ''C''\<rparr> \<in> set (events (snd (DeleteProfile example_store ''P'')))"
  by (simp add: DeleteProfile_def delete_child_def delete_parent_def repo_defs example_defs)

text \<open>
  Claim C4 as amended. In every run of \<open>DeleteProfile\<close> the event deletion for the
  requested identifier comes before any row deletion; if a row is deleted at all,
  the run began with the fetch of the target and the deletion of its events, and
  that deletion succeeded, so the event store holds no event of the target. Events
  of other identifiers are never removed.
\<close>

theorem DeleteProfile_removes_target_events_first:
  "events_removed_first pid (new_calls s (snd (DeleteProfile s pid)))
   \<and> (DeleteProfileCall x \<in> set (new_calls s (snd (DeleteProfile s pid))) \<longrightarrow>
        take 2 (new_calls s (snd (DeleteProfile s pid)))
          = [GetProfileCall pid, DeleteEventsByProfileIdCall pid]
        \<and> events (snd (DeleteProfile s pid)) = filter (\<lambda>e. EventProfileId e \<noteq> pid) (events s))
   \<and> filter (\<lambda>e. EventProfileId e \<noteq> pid) (events (snd (DeleteProfile s pid)))
        = filter (\<lambda>e. EventProfileId e \<noteq> pid) (events s)"
  using DeleteProfile_trace [of s pid]
  by (auto simp: is_row_delete_def)

theorem DeleteProfile_removes_target_events_first_witness:
  "events_removed_first ''P'' (new_calls example_store (snd (DeleteProfile example_store ''P'')))
   \<and> DeleteProfileCall ''C'' \<in> set (new_calls example_store (snd (DeleteProfile example_store ''P'')))
   \<and> take 2 (new_calls example_store (snd (DeleteProfile example_store ''P'')))
          = [GetProfileCall ''P'', DeleteEventsByProfileIdCall ''P'']
   \<and> events (snd (DeleteProfile example_store ''P''))
          = filter (\<lambda>e. EventProfileId e \<noteq> ''P'') (events example_store)"
proof -
  have row: "DeleteProfileCall ''C'' \<in> set (new_calls example_store (snd (DeleteProfile example_store ''P'')))"
    by (simp add: DeleteProfile_def delete_parent_def repo_defs example_defs new_calls_def)
  from DeleteProfile_removes_target_events_first [of "''P''" example_store "''C''"] row
  show ?thesis by blast
qed

section \<open>CreateOrUpdateProfile without the lock\<close>

lemma lock_unavailable_issue [simp]:
  "lock_unavailable (issue c s) pos k = lock_unavailable s pos k"
  by (induction k arbitrary: pos) simp_all

lemma acquire_loop_unavailable:
  assumes "lock_unavailable s (length (calls s)) (nat (M - i))"
  shows "\<exists>k e s'. acquire_loop M key s i = ((False, e), s')
           \<and> same_tables s s' \<and> calls s' = calls s @ replicate k (AcquireCall key)"
  using assms
proof (induction M key s i rule: acquire_loop.induct)
  case (1 M key s i)
  show ?case
  proof (cases "i < M")
    case False
    then have "acquire_loop M key s i = ((False, None), s)"
      by (simp add: acquire_loop.simps)
    then show ?thesis
      by (intro exI [of _ 0] exI [of _ None] exI [of _ s]) simp
  next
    case True
    then have unfold: "nat (M - i) = Suc (nat (M - (i + 1)))"
      by simp
    show ?thesis
    proof (cases "failing s")
      case True
      with \<open>i < M\<close> have "acquire_loop M key s i
          = ((False, Some (DbError (AcquireCall key))), issue (AcquireCall key) s)"
        by (simp add: acquire_loop.simps [of M key s i] lock_Acquire_def)
      then show ?thesis
        by (intro exI [of _ 1] exI [of _ "Some (DbError (AcquireCall key))"]
            exI [of _ "issue (AcquireCall key) s"]) simp
    next
      case False
      with "1.prems" have busy: "contended s"
        and rest: "lock_unavailable s (Suc (length (calls s))) (nat (M - (i + 1)))"
        unfolding unfold by (simp_all add: failing_def contended_def)
      let ?s1 = "issue (AcquireCall key) s"
      have acq: "lock_Acquire s key = ((False, None), ?s1)"
        using False busy by (simp add: lock_Acquire_def)
      have step: "acquire_loop M key s i = acquire_loop M key ?s1 (i + 1)"
        using \<open>i < M\<close> acq by (simp add: acquire_loop.simps [of M key s i])
      have "\<exists>k e s'. acquire_loop M key ?s1 (i + 1) = ((False, e), s')
           \<and> same_tables ?s1 s' \<and> calls s' = calls ?s1 @ replicate k (AcquireCall key)"
      proof (rule "1.IH" [OF \<open>i < M\<close> acq [symmetric] refl refl])
        show "\<not> False" by simp
        show "lock_unavailable ?s1 (length (calls ?s1)) (nat (M - (i + 1)))"
          using rest by simp
      qed
      then obtain k e s' where r: "acquire_loop M key ?s1 (i + 1) = ((False, e), s')"
        "same_tables ?s1 s'" "calls s' = calls ?s1 @ replicate k (AcquireCall key)"
        by blast
      have "calls s' = calls s @ replicate (Suc k) (AcquireCall key)"
        using r(3) by simp
      moreover have "same_tables s s'"
        using r(2) by (simp add: same_tables_def)
      moreover have "acquire_loop M key s i = ((False, e), s')"
        using step r(1) by simp
      ultimately show ?thesis
        by (intro exI [of _ "Suc k"] exI [of _ e] exI [of _ s']) simp
    qed
  qed
qed

text \<open>
  Conversely, when some attempt can take the lock, the loop ends with the lock and
  no error.
\<close>

lemma acquire_loop_available:
  assumes "\<not> lock_unavailable s (length (calls s)) (nat (M - i))"
  shows "fst (acquire_loop M key s i) = (True, None)"
  using assms
proof (induction M key s i rule: acquire_loop.induct)
  case (1 M key s i)
  show ?case
  proof (cases "i < M")
    case False
    with "1.prems" show ?thesis by simp
  next
    case True
    then have unfold: "nat (M - i) = Suc (nat (M - (i + 1)))"
      by simp
    from "1.prems" have nf: "\<not> failing s"
      unfolding unfold by (simp add: failing_def)
    show ?thesis
    proof (cases "contended s")
      case False
      with nf True show ?thesis
        by (simp add: acquire_loop.simps [of M key s i] lock_Acquire_def)
    next
      case busy: True
      let ?s1 = "issue (AcquireCall key) s"
      have acq: "lock_Acquire s key = ((False, None), ?s1)"
        using nf busy by (simp add: lock_Acquire_def)
      have step: "acquire_loop M key s i = acquire_loop M key ?s1 (i + 1)"
        using \<open>i < M\<close> acq by (simp add: acquire_loop.simps [of M key s i])
      have "fst (acquire_loop M key ?s1 (i + 1)) = (True, None)"
      proof (rule "1.IH" [OF \<open>i < M\<close> acq [symmetric] refl refl])
        show "\<not> False" by simp
        show "\<not> lock_unavailable ?s1 (length (calls ?s1)) (nat (M - (i + 1)))"
          using "1.prems" busy unfolding unfold by (simp add: contended_def)
      qed
      with step show ?thesis by simp
    qed
  qed
qed

text \<open>
  Claim C6. Let the session be obtained and let none of the \<open>MaxRetryAttempts\<close>
  attempts take the lock of the event's profile identifier. Then
  \<open>CreateOrUpdateProfile\<close> returns no profile and a lock-acquisition error, every
  table is as before, and the calls issued are the opening of the session, some
  attempts on the lock and the closing of the session: no upsert and no read of a
  profile.
\<close>

theorem CreateOrUpdateProfile_lock_not_acquired:
  assumes "\<not> failing s"
    and "lock_unavailable s (Suc (length (calls s))) (nat MaxRetryAttempts)"
  shows "\<exists>e k s'. CreateOrUpdateProfile MaxRetryAttempts s event = ((None, Some e), s')
           \<and> is_lock_error e
           \<and> same_tables s s'
           \<and> new_calls s s'
               = ConnCall # replicate k (AcquireCall (EventProfileId event)) @ [ConnCloseCall]"
proof -
  let ?s1 = "issue ConnCall s"
  let ?key = "EventProfileId event"
  have conn: "db_Conn s = (None, ?s1)"
    using assms(1) by (simp add: db_Conn_def)
  have "\<exists>k e s'. acquire_loop MaxRetryAttempts ?key ?s1 0 = ((False, e), s')
           \<and> same_tables ?s1 s' \<and> calls s' = calls ?s1 @ replicate k (AcquireCall ?key)"
    by (rule acquire_loop_unavailable) (use assms(2) in simp)
  then obtain k e s2 where loop: "acquire_loop MaxRetryAttempts ?key ?s1 0 = ((False, e), s2)"
    and tabs: "same_tables ?s1 s2"
    and tr: "calls s2 = calls ?s1 @ replicate k (AcquireCall ?key)"
    by blast
  have tabs': "same_tables s (conn_Close s2)"
    using tabs by (simp add: conn_Close_def same_tables_def)
  have tr': "new_calls s (conn_Close s2) = ConnCall # replicate k (AcquireCall ?key) @ [ConnCloseCall]"
    using tr by (simp add: conn_Close_def new_calls_def)
  show ?thesis
  proof (cases e)
    case None
    then have "CreateOrUpdateProfile MaxRetryAttempts s event
        = ((None, Some (CouldNotAcquireLock ?key MaxRetryAttempts)), conn_Close s2)"
      using conn loop by (simp add: CreateOrUpdateProfile_def)
    with tabs' tr' show ?thesis
      by (intro exI [of _ "CouldNotAcquireLock ?key MaxRetryAttempts"] exI [of _ k]
          exI [of _ "conn_Close s2"]) simp
  next
    case (Some d)
    then have "CreateOrUpdateProfile MaxRetryAttempts s event
        = ((None, Some (LockAcquisitionError ?key d)), conn_Close s2)"
      using conn loop by (simp add: CreateOrUpdateProfile_def)
    with tabs' tr' show ?thesis
      by (intro exI [of _ "LockAcquisitionError ?key d"] exI [of _ k]
          exI [of _ "conn_Close s2"]) simp
  qed
qed

theorem CreateOrUpdateProfile_lock_not_acquired_witness:
  "\<exists>e k s'. CreateOrUpdateProfile 3 (example_store\<lparr>busy := [1, 3], faults := [2]\<rparr>) \<lparr>EventProfileId = ''N''\<rparr>
               = ((None, Some e), s')
           \<and> is_lock_error e
           \<and> same_tables (example_store\<lparr>busy := [1, 3], faults := [2]\<rparr>) s'
           \<and> new_calls (example_store\<lparr>busy := [1, 3], faults := [2]\<rparr>) s'
               = ConnCall # replicate k (AcquireCall (EventProfileId \<lparr>EventProfileId = ''N''\<rparr>))
                   @ [ConnCloseCall]"
  by (rule CreateOrUpdateProfile_lock_not_acquired)
     (simp_all add: failing_def example_store_def eval_nat_numeral)

section \<open>Which filters are kept\<close>

lemma count_list_split:
  "count_list s c = (if c \<in> set s then Suc (count_list (tl (dropWhile (\<lambda>x. x \<noteq> c) s)) c) else 0)"
  by (induction s) auto

lemma split_at_first:
  "c \<in> set s \<Longrightarrow> s = takeWhile (\<lambda>x. x \<noteq> c) s @ c # tl (dropWhile (\<lambda>x. x \<noteq> c) s)"
  by (induction s) auto

lemma SplitN_3:
  "SplitN f c 3 =
     (if c \<in> set f then
        (if c \<in> set (tl (dropWhile (\<lambda>x. x \<noteq> c) f)) then
           [takeWhile (\<lambda>x. x \<noteq> c) f,
            takeWhile (\<lambda>x. x \<noteq> c) (tl (dropWhile (\<lambda>x. x \<noteq> c) f)),
            tl (dropWhile (\<lambda>x. x \<noteq> c) (tl (dropWhile (\<lambda>x. x \<noteq> c) f)))]
         else [takeWhile (\<lambda>x. x \<noteq> c) f, tl (dropWhile (\<lambda>x. x \<noteq> c) f)])
      else [f])"
  by (simp add: numeral_3_eq_3)

lemma SplitN_3_length: "length (SplitN f c 3) = 3 \<longleftrightarrow> 2 \<le> count_list f c"
proof (cases "c \<in> set f")
  case False
  then show ?thesis by (simp add: SplitN_3 count_list_split [of f])
next
  case True
  then show ?thesis
    by (simp add: SplitN_3 count_list_split [of f]
        count_list_split [of "tl (dropWhile (\<lambda>x. x \<noteq> c) f)"])
qed

lemma SplitN_3_pieces:
  assumes "2 \<le> count_list f c"
  shows "\<exists>a b r. SplitN f c 3 = [a, b, r] \<and> f = a @ c # b @ c # r \<and> c \<notin> set a \<and> c \<notin> set b"
proof -
  let ?g = "tl (dropWhile (\<lambda>x. x \<noteq> c) f)"
  have 1: "c \<in> set f"
    using assms count_list_split [of f c] by (auto split: if_splits)
  then have 2: "c \<in> set ?g"
    using assms count_list_split [of f c] count_list_split [of ?g c] by (auto split: if_splits)
  have f: "f = takeWhile (\<lambda>x. x \<noteq> c) f @ c # ?g"
    by (rule split_at_first [OF 1])
  have g: "?g = takeWhile (\<lambda>x. x \<noteq> c) ?g @ c # tl (dropWhile (\<lambda>x. x \<noteq> c) ?g)"
    by (rule split_at_first [OF 2])
  have na: "c \<notin> set (takeWhile (\<lambda>x. x \<noteq> c) f)" and nb: "c \<notin> set (takeWhile (\<lambda>x. x \<noteq> c) ?g)"
    by (auto dest: set_takeWhileD)
  have "f = takeWhile (\<lambda>x. x \<noteq> c) f @ c # takeWhile (\<lambda>x. x \<noteq> c) ?g @ c # tl (dropWhile (\<lambda>x. x \<noteq> c) ?g)"
    using f g by metis
  with 1 2 na nb show ?thesis
    by (simp add: SplitN_3)
qed

lemmas filter_eval = SplitN_3 rewrite_filter_def propertyTypeMap_def parseTypedValueForFilters_def
  Atoi_def ParseInt_def ParseUint_def is_digit_def Itoa_def digits_of.simps
  digit_value_def maxUint64_def Let_def

text \<open>
  Claim C8. The claim says that a filter of more than three tokens is dropped. A
  filter of four tokens is kept: its third piece is the rest of the text.
\<close>

theorem updatedFilters_keeps_longer_filters:
  "updatedFilters id id (propertyTypeMap []) [''age > 30 40''] = [''age > 30 40'']
   \<and> updatedFilters id id (propertyTypeMap (enrichment_rules example_store)) [''age > 30 40'']
       = [''age > 0'']"
  by (simp add: SplitN_3 rewrite_filter_def propertyTypeMap_def parseTypedValueForFilters_def
      example_store_def Atoi_def ParseInt_def ParseUint_def is_digit_def Itoa_def digits_of.simps
      digit_value_def maxUint64_def Let_def)

text \<open>
  Claim C8 as amended. A filter contributes a rewritten predicate exactly when it
  holds at least two spaces, and the filters kept are rewritten in their order. For
  such a filter the field is the text before the first space, the operator the text
  between the first two spaces, and the raw value all the rest, spaces included.
\<close>

theorem updatedFilters_keeps_two_spaces:
  "updatedFilters ParseFloat FormatFloat types fs
     = map (rewrite_filter ParseFloat FormatFloat types) (filter (\<lambda>f. 2 \<le> count_list f CHR '' '') fs)
   \<and> (2 \<le> count_list f CHR '' '' \<longrightarrow>
        (\<exists>field operator rawValue.
           SplitN f CHR '' '' 3 = [field, operator, rawValue]
           \<and> f = field @ '' '' @ operator @ '' '' @ rawValue
           \<and> CHR '' '' \<notin> set field \<and> CHR '' '' \<notin> set operator))"
proof
  show "updatedFilters ParseFloat FormatFloat types fs
     = map (rewrite_filter ParseFloat FormatFloat types) (filter (\<lambda>f. 2 \<le> count_list f CHR '' '') fs)"
    by (induction fs) (simp_all add: SplitN_3_length)
next
  show "2 \<le> count_list f CHR '' '' \<longrightarrow>
        (\<exists>field operator rawValue.
           SplitN f CHR '' '' 3 = [field, operator, rawValue]
           \<and> f = field @ '' '' @ operator @ '' '' @ rawValue
           \<and> CHR '' '' \<notin> set field \<and> CHR '' '' \<notin> set operator)"
    using SplitN_3_pieces [of f "CHR '' ''"] by simp
qed

theorem updatedFilters_keeps_two_spaces_witness:
  "updatedFilters id id (propertyTypeMap (enrichment_rules example_store))
       [''age > 30'', ''age >'', ''age'', ''age > 30 40'']
     = [''age > 30'', ''age > 0'']
   \<and> (\<exists>field operator rawValue.
           SplitN ''age > 30 40'' CHR '' '' 3 = [field, operator, rawValue]
           \<and> ''age > 30 40'' = field @ '' '' @ operator @ '' '' @ rawValue
           \<and> CHR '' '' \<notin> set field \<and> CHR '' '' \<notin> set operator)"
proof
  have "updatedFilters id id (propertyTypeMap (enrichment_rules example_store))
       [''age > 30'', ''age >'', ''age'', ''age > 30 40'']
     = map (rewrite_filter id id (propertyTypeMap (enrichment_rules example_store)))
         (filter (\<lambda>f. 2 \<le> count_list f CHR '' '') [''age > 30'', ''age >'', ''age'', ''age > 30 40''])"
    by (rule updatedFilters_keeps_two_spaces [THEN conjunct1])
  also have "\<dots> = [''age > 30'', ''age > 0'']"
    by (simp add: filter_eval example_store_def)
  finally show "updatedFilters id id (propertyTypeMap (enrichment_rules example_store))
       [''age > 30'', ''age >'', ''age'', ''age > 30 40'']
     = [''age > 30'', ''age > 0'']" .
next
  have "2 \<le> count_list ''age > 30 40'' CHR '' ''"
    by simp
  with updatedFilters_keeps_two_spaces [where f = "''age > 30 40''", THEN conjunct2]
  show "\<exists>field operator rawValue.
           SplitN ''age > 30 40'' CHR '' '' 3 = [field, operator, rawValue]
           \<and> ''age > 30 40'' = field @ '' '' @ operator @ '' '' @ rawValue
           \<and> CHR '' '' \<notin> set field \<and> CHR '' '' \<notin> set operator"
    by (rule mp)
qed

section \<open>The typed value of a filter\<close>

lemma decimal_simps [simp]:
  "decimal n [] = n"
  "decimal n (c # cs) = decimal (n * 10 + digit_value c) cs"
  by (simp_all add: decimal_def)

lemma decimal_ge: "n \<le> decimal n ds"
proof (induction ds arbitrary: n)
  case Nil
  show ?case by simp
next
  case (Cons c cs)
  have "n \<le> n * 10 + digit_value c" by simp
  also have "\<dots> \<le> decimal (n * 10 + digit_value c) cs" by (rule Cons.IH)
  finally show ?case by simp
qed

lemma ParseUint_loop_None:
  assumes "ParseUint_loop n ds = (v, None)"
  shows "list_all is_digit ds \<and> v = decimal n ds \<and> v \<le> maxUint64 \<or> ds = [] \<and> v = n"
  using assms
proof (induction ds arbitrary: n)
  case Nil
  then show ?case by simp
next
  case (Cons c cs)
  then have c: "is_digit c" and lt: "n * 10 + digit_value c \<le> maxUint64"
    and rest: "ParseUint_loop (n * 10 + digit_value c) cs = (v, None)"
    by (auto split: if_splits)
  from Cons.IH [OF rest] lt c show ?case
    by auto
qed

lemma ParseUint_loop_errors:
  "snd (ParseUint_loop n ds) = Some ErrSyntax \<Longrightarrow> fst (ParseUint_loop n ds) = 0"
  "snd (ParseUint_loop n ds) = Some ErrRange \<Longrightarrow> fst (ParseUint_loop n ds) = maxUint64"
  by (induction ds arbitrary: n) (auto split: if_splits)


lemma ParseUint_None:
  assumes "ParseUint ds = (v, None)"
  shows "ds \<noteq> [] \<and> list_all is_digit ds \<and> v = decimal 0 ds"
  using assms ParseUint_loop_None [of 0 ds v]
  by (auto simp: ParseUint_def split: if_splits)

lemma ParseUint_errors:
  "snd (ParseUint ds) = Some ErrSyntax \<Longrightarrow> fst (ParseUint ds) = 0"
  "snd (ParseUint ds) = Some ErrRange \<Longrightarrow> fst (ParseUint ds) = maxUint64"
  by (auto simp: ParseUint_def ParseUint_loop_errors split: if_splits)

lemma Atoi_None:
  assumes "snd (Atoi s) = None"
  shows "well_formed_int s \<and> fst (Atoi s) = int_value s
         \<and> - (2 ^ 63) \<le> int_value s \<and> int_value s < 2 ^ 63"
proof (cases s)
  case Nil
  with assms show ?thesis by (simp add: Atoi_def ParseInt_def)
next
  case (Cons c cs)
  let ?s1 = "if c = CHR ''+'' \<or> c = CHR ''-'' then cs else s"
  obtain un err where pu: "ParseUint ?s1 = (un, err)"
    by (cases "ParseUint ?s1")
  have "err = Some ErrRange \<Longrightarrow> un = maxUint64"
    using ParseUint_errors(2) [of ?s1] pu by simp
  with assms Cons pu have "err = None"
    by (cases err; cases "the err")
       (auto simp: Atoi_def ParseInt_def Let_def maxUint64_def split: if_splits)
  with pu ParseUint_None [of ?s1 un]
  have wf: "?s1 \<noteq> []" "list_all is_digit ?s1" and un: "un = decimal 0 ?s1"
    by simp_all
  from assms Cons pu \<open>err = None\<close> wf un show ?thesis
    by (auto simp: Atoi_def ParseInt_def Let_def well_formed_int_def int_value_def
        split: if_splits)
qed

lemma Atoi_errors:
  "snd (Atoi s) = Some ErrSyntax \<Longrightarrow> fst (Atoi s) = 0"
  "snd (Atoi s) = Some ErrRange \<Longrightarrow> fst (Atoi s) = 2 ^ 63 - 1 \<or> fst (Atoi s) = - (2 ^ 63)"
  by (auto simp: Atoi_def ParseInt_def Let_def split: if_splits prod.splits)

lemma digit_value_le: "is_digit c \<Longrightarrow> digit_value c \<le> 9"
  by (auto simp: is_digit_def digit_value_def)

lemma ParseUint_loop_all_digits:
  assumes "list_all is_digit ds" and "n \<le> maxUint64"
  shows "ParseUint_loop n ds =
           (if decimal n ds \<le> maxUint64 then (decimal n ds, None) else (maxUint64, Some ErrRange))"
  using assms
proof (induction ds arbitrary: n)
  case Nil
  then show ?case
    by simp
next
  case (Cons c cs)
  let ?m = "n * 10 + digit_value c"
  have ge: "?m \<le> decimal ?m cs"
    by (rule decimal_ge)
  show ?case
  proof (cases "n \<ge> maxUint64 div 10 + 1")
    case True
    then have "maxUint64 < ?m"
      by (simp add: maxUint64_def)
    with ge True Cons.prems show ?thesis
      by simp
  next
    case False
    show ?thesis
    proof (cases "?m > maxUint64")
      case True
      with ge False Cons.prems show ?thesis
        by simp
    next
      case small: False
      then have "ParseUint_loop ?m cs =
          (if decimal ?m cs \<le> maxUint64 then (decimal ?m cs, None) else (maxUint64, Some ErrRange))"
        using Cons.prems by (intro Cons.IH) simp_all
      with False small Cons.prems show ?thesis
        by simp
    qed
  qed
qed

lemma ParseUint_all_digits:
  assumes "ds \<noteq> []" and "list_all is_digit ds"
  shows "ParseUint ds =
           (if decimal 0 ds \<le> maxUint64 then (decimal 0 ds, None) else (maxUint64, Some ErrRange))"
  using assms by (simp add: ParseUint_def ParseUint_loop_all_digits)

lemma Atoi_clamps:
  assumes "well_formed_int s"
  shows "fst (Atoi s) = max (- (2 ^ 63)) (min (2 ^ 63 - 1) (int_value s))"
proof (cases s)
  case Nil
  with assms show ?thesis by (simp add: well_formed_int_def)
next
  case (Cons c cs)
  show ?thesis
  proof (cases "c = CHR ''+'' \<or> c = CHR ''-''")
    case True
    with Cons assms have "cs \<noteq> []" "list_all is_digit cs"
      by (simp_all add: well_formed_int_def)
    then have pu: "ParseUint cs =
        (if decimal 0 cs \<le> maxUint64 then (decimal 0 cs, None) else (maxUint64, Some ErrRange))"
      by (rule ParseUint_all_digits)
    have pi: "ParseInt (c # cs) =
        (case ParseUint cs of (un, err) \<Rightarrow>
              if err = Some ErrSyntax then (0, err)
              else if c \<noteq> CHR ''-'' \<and> un \<ge> 2 ^ 63 then (2 ^ 63 - 1, Some ErrRange)
              else if c = CHR ''-'' \<and> un > 2 ^ 63 then (- (2 ^ 63), Some ErrRange)
              else (if c = CHR ''-'' then - int un else int un, None))"
      using True by (auto simp: ParseInt_def Let_def split: prod.splits)
    have iv: "int_value (c # cs) = (if c = CHR ''-'' then - int (decimal 0 cs) else int (decimal 0 cs))"
      using True by (auto simp: int_value_def)
    show ?thesis
      unfolding Cons Atoi_def pi pu iv
      by (auto simp: maxUint64_def)
  next
    case False
    with Cons assms have "s \<noteq> []" "list_all is_digit s"
      by (simp_all add: well_formed_int_def)
    then have pu: "ParseUint s =
        (if decimal 0 s \<le> maxUint64 then (decimal 0 s, None) else (maxUint64, Some ErrRange))"
      by (rule ParseUint_all_digits)
    have pi: "ParseInt s =
        (case ParseUint s of (un, err) \<Rightarrow>
              if err = Some ErrSyntax then (0, err)
              else if un \<ge> 2 ^ 63 then (2 ^ 63 - 1, Some ErrRange)
              else (int un, None))"
      using False Cons by (auto simp: ParseInt_def Let_def split: prod.splits)
    have iv: "int_value s = int (decimal 0 s)"
      using False Cons by (simp add: int_value_def)
    show ?thesis
      unfolding Atoi_def pi pu iv
      by (auto simp: maxUint64_def)
  qed
qed

lemma Atoi_malformed:
  assumes "\<not> well_formed_int s"
  shows "snd (Atoi s) \<noteq> None"
  using assms Atoi_None [of s] by blast

text \<open>
  Claim C9. The claim says that type \<open>int\<close> yields zero on every input that does not
  parse. The text \<open>9223372036854775808\<close> does not parse (\<open>Atoi\<close> reports a range
  error) and yields the largest 64-bit integer.
\<close>

theorem parseTypedValueForFilters_range_error_not_zero:
  "snd (Atoi ''9223372036854775808'') = Some ErrRange
   \<and> parseTypedValueForFilters id ''int'' ''9223372036854775808'' = IntValue 9223372036854775807
   \<and> updatedFilters id id (propertyTypeMap (enrichment_rules example_store))
        [''age > 9223372036854775808''] = [''age > 9223372036854775807'']"
  by (simp add: filter_eval example_store_def)

text \<open>
  Claim C9 as amended. No conversion reports an error. Type \<open>int\<close> yields the value
  of \<open>Atoi\<close> with its error dropped: for a signed decimal text the integer it
  denotes, clamped to the 64-bit range; a text of another form makes \<open>Atoi\<close> fail;
  zero on a syntax error, the nearest bound on a range error. Types \<open>float\<close> and
  \<open>double\<close> yield the value of \<open>ParseFloat\<close> with its error dropped. Type
  \<open>boolean\<close> yields true exactly for the text \<open>true\<close>. Every other type passes the
  text through. With \<open>age\<close> declared \<open>int\<close>, \<open>age > 30\<close> is rewritten with 30 and
  \<open>age > abc\<close> with 0.
\<close>

theorem parseTypedValueForFilters_conversion:
  "parseTypedValueForFilters ParseFloat ''int'' raw = IntValue (fst (Atoi raw))
   \<and> (well_formed_int raw \<longrightarrow>
        fst (Atoi raw) = max (- (2 ^ 63)) (min (2 ^ 63 - 1) (int_value raw)))
   \<and> (\<not> well_formed_int raw \<longrightarrow> snd (Atoi raw) \<noteq> None)
   \<and> (snd (Atoi raw) = Some ErrSyntax \<longrightarrow> fst (Atoi raw) = 0)
   \<and> (snd (Atoi raw) = Some ErrRange \<longrightarrow>
        fst (Atoi raw) = 2 ^ 63 - 1 \<or> fst (Atoi raw) = - (2 ^ 63))
   \<and> parseTypedValueForFilters ParseFloat ''float'' raw = FloatValue (ParseFloat raw)
   \<and> parseTypedValueForFilters ParseFloat ''double'' raw = FloatValue (ParseFloat raw)
   \<and> parseTypedValueForFilters ParseFloat ''boolean'' raw = BoolValue (raw = ''true'')
   \<and> (valueType \<notin> {''int'', ''float'', ''double'', ''boolean''} \<longrightarrow>
        parseTypedValueForFilters ParseFloat valueType raw = StringValue raw)
   \<and> updatedFilters ParseFloat FormatFloat
        (propertyTypeMap [\<lparr>PropertyName = ''age'', ValueType = ''int''\<rparr>]) [''age > 30'']
        = [''age > 30'']
   \<and> updatedFilters ParseFloat FormatFloat
        (propertyTypeMap [\<lparr>PropertyName = ''age'', ValueType = ''int''\<rparr>]) [''age > abc'']
        = [''age > 0'']"
proof (intro conjI impI)
  show "updatedFilters ParseFloat FormatFloat
        (propertyTypeMap [\<lparr>PropertyName = ''age'', ValueType = ''int''\<rparr>]) [''age > 30'']
        = [''age > 30'']"
    by (simp add: filter_eval)
  show "updatedFilters ParseFloat FormatFloat
        (propertyTypeMap [\<lparr>PropertyName = ''age'', ValueType = ''int''\<rparr>]) [''age > abc'']
        = [''age > 0'']"
    by (simp add: filter_eval)
  show "fst (Atoi raw) = 2 ^ 63 - 1 \<or> fst (Atoi raw) = - (2 ^ 63)" if "snd (Atoi raw) = Some ErrRange"
    using that by (rule Atoi_errors(2))
  show "fst (Atoi raw) = max (- (2 ^ 63)) (min (2 ^ 63 - 1) (int_value raw))" if "well_formed_int raw"
    using that by (rule Atoi_clamps)
qed (simp_all add: parseTypedValueForFilters_def Atoi_malformed Atoi_errors(1))

theorem parseTypedValueForFilters_conversion_witness:
  "parseTypedValueForFilters id ''int'' ''-42'' = IntValue (- 42)
   \<and> parseTypedValueForFilters id ''int'' ''abc'' = IntValue 0
   \<and> snd (Atoi ''abc'') = Some ErrSyntax
   \<and> parseTypedValueForFilters id ''int'' ''9223372036854775808'' = IntValue (2 ^ 63 - 1)
   \<and> parseTypedValueForFilters id ''text'' ''abc'' = StringValue ''abc''"
proof -
  note conv = parseTypedValueForFilters_conversion [where ParseFloat = id]
  note as_int = conv [THEN conjunct1]
  note clamp = conv [THEN conjunct2, THEN conjunct1, THEN mp]
  note zero = conv [THEN conjunct2, THEN conjunct2, THEN conjunct2, THEN conjunct1, THEN mp]
  note through = conv [THEN conjunct2, THEN conjunct2, THEN conjunct2, THEN conjunct2,
      THEN conjunct2, THEN conjunct2, THEN conjunct2, THEN conjunct2, THEN conjunct1, THEN mp]
  have wf: "well_formed_int ''-42''" "well_formed_int ''9223372036854775808''"
    by (simp_all add: well_formed_int_def is_digit_def)
  have v: "int_value ''-42'' = - 42" "int_value ''9223372036854775808'' = 9223372036854775808"
    by (simp_all add: int_value_def digit_value_def)
  have syn: "snd (Atoi ''abc'') = Some ErrSyntax"
    by (simp add: Atoi_def ParseInt_def ParseUint_def is_digit_def Let_def)
  have a: "parseTypedValueForFilters id ''int'' ''-42'' = IntValue (- 42)"
    using as_int [of "''-42''"] clamp [OF wf(1)] v(1) by simp
  have b: "parseTypedValueForFilters id ''int'' ''abc'' = IntValue 0"
    using as_int [of "''abc''"] zero [OF syn] by simp
  have c: "parseTypedValueForFilters id ''int'' ''9223372036854775808'' = IntValue (2 ^ 63 - 1)"
    using as_int [of "''9223372036854775808''"] clamp [OF wf(2)] v(2) by simp
  have d: "parseTypedValueForFilters id ''text'' ''abc'' = StringValue ''abc''"
    by (rule through) simp
  from a b syn c d show ?thesis
    by (intro conjI)
qed

end
